theory Spec2Isabelle
  imports Main
begin

section \<open>Python values and the command line\<close>

text \<open>
  The proxy is a Python 2 program: the values that flow through \<open>mining_proxy.py\<close>
  are dynamically typed. \<open>pyval\<close> has the shapes the file handles: \<open>None\<close>, booleans,
  integers, byte strings, lists and tuples.
\<close>

datatype pyval =
    PNone
  | PBool bool
  | PInt int
  | PStr string
  | PList "pyval list"
  | PTuple "pyval list"

text \<open>Python truthiness, as \<open>if args.custom_user:\<close> and \<open>if args.proxy:\<close> test it.\<close>

fun truthy :: "pyval \<Rightarrow> bool" where
  "truthy PNone = False"
| "truthy (PBool b) = b"
| "truthy (PInt n) = (n \<noteq> 0)"
| "truthy (PStr s) = (s \<noteq> [])"
| "truthy (PList xs) = (xs \<noteq> [])"
| "truthy (PTuple xs) = (xs \<noteq> [])"

text \<open>
  The fields of the \<open>argparse\<close> namespace that \<open>main\<close> and \<open>on_connect\<close> read.
  \<open>custom_user\<close> and \<open>custom_password\<close> have no default: they are \<open>None\<close> or a
  string. \<open>proxy\<close> defaults to the empty string.
\<close>

record args =
  host :: string
  port :: int
  custom_user :: pyval
  custom_password :: pyval
  proxy :: string
  tor :: bool

datatype error = ValueError | RpcError

section \<open>The state the handlers act on\<close>

text \<open>
  A downstream worker, with the fields of the spec's data model (section 3).
\<close>

record worker =
  connection_id :: nat
  presented_username :: string
  presented_password :: string
  authorized :: bool
  extranonce2_range :: "nat \<times> nat"

record job =
  job_id :: string
  prev_block_hash :: string
  coinbase_part1 :: string
  coinbase_part2 :: string
  merkle_branch :: "string list"
  block_version :: string
  bits :: string
  time :: string
  clean_jobs :: bool

datatype loglevel = Info | Warning

datatype share_result = Accepted | Rejected string

text \<open>
  Every call a handler makes on another object is recorded, in program order, in the
  \<open>effects\<close> of the state; the state fields hold what the calls leave behind.
\<close>

datatype effect =
    Log loglevel string "pyval list"
  | HookOnConnect
  | HookOnDisconnect
  | ClearAuthorizations
  | DisconnectAll
  | Rpc string "pyval list"
  | JobSetExtranonce pyval pyval
  | ListenerSetExtranonce pyval pyval
  | WorkersAuthorize pyval pyval
  | Raise error
  | Reconnect
  | Broadcast job "nat list"
  | BlockNotify string
  | SubmitReply nat share_result

text \<open>
  \<^item> \<open>main_host\<close>, \<open>is_reconnecting\<close>: attributes of the client factory \<open>f\<close>;
  \<^item> \<open>connect_hooked\<close>, \<open>disconnect_hooked\<close>: whether \<open>on_connect\<close> (\<open>on_disconnect\<close>) is
    a callback of the Deferred that \<open>f.on_connect\<close> (\<open>f.on_disconnect\<close>) holds now;
  \<^item> \<open>workers\<close>: the \<open>WorkerRegistry\<close>; \<open>subscriptions\<close>: the connection ids in the
    class-level registry of \<open>stratum_listener.MiningSubscription\<close>;
  \<^item> \<open>job_extranonce\<close>, \<open>current_job\<close>: the \<open>JobRegistry\<close>;
  \<^item> \<open>listener_extranonce\<close>: the class attributes of
    \<open>stratum_listener.StratumProxyService\<close>;
  \<^item> \<open>free_ranges\<close>, \<open>next_start\<close>, \<open>range_width\<close>: the allocator of extranonce2
    ranges.
\<close>

record proxy_state =
  main_host :: "string \<times> int"
  is_reconnecting :: bool
  connect_hooked :: bool
  disconnect_hooked :: bool
  workers :: "worker list"
  subscriptions :: "nat list"
  job_extranonce :: "(pyval \<times> pyval) option"
  current_job :: "job option"
  listener_extranonce :: "(pyval \<times> pyval) option"
  free_ranges :: "(nat \<times> nat) list"
  next_start :: nat
  range_width :: nat
  effects :: "effect list"

definition emit :: "effect \<Rightarrow> proxy_state \<Rightarrow> proxy_state" where
  "emit e s = s\<lparr>effects := effects s @ [e]\<rparr>"

section \<open>The collaborators in \<open>mining_libs\<close>\<close>

text \<open>
  \<open>mining_proxy.py\<close> imports \<open>worker_registry\<close>, \<open>jobs\<close> and \<open>stratum_listener\<close> from
  \<open>mining_libs\<close>; the handlers below call into them.
\<close>

definition clear_authorizations :: "proxy_state \<Rightarrow> proxy_state" where
  \<comment> \<open>Modelled from the spec: \<open>WorkerRegistry.clear_authorizations\<close> (mining_libs is
      missing). Section 4.3: it flips every worker's \<open>authorized\<close> flag to false.\<close>
  "clear_authorizations s =
     emit ClearAuthorizations (s\<lparr>workers := map (\<lambda>w. w\<lparr>authorized := False\<rparr>) (workers s)\<rparr>)"

definition disconnect_all :: "proxy_state \<Rightarrow> proxy_state" where
  \<comment> \<open>Modelled from the spec: \<open>MiningSubscription.disconnect_all\<close> (mining_libs is
      missing). Section 7: on an upstream disconnect all subscriptions are invalidated.\<close>
  "disconnect_all s = emit DisconnectAll (s\<lparr>subscriptions := []\<rparr>)"

definition set_extranonce :: "pyval \<Rightarrow> pyval \<Rightarrow> proxy_state \<Rightarrow> proxy_state" where
  \<comment> \<open>Modelled from the spec: \<open>JobRegistry.set_extranonce\<close> (mining_libs is missing).
      Section 4.2: \<open>on_extranonce(config)\<close> stores the config.\<close>
  "set_extranonce extranonce1 extranonce2_size s =
     emit (JobSetExtranonce extranonce1 extranonce2_size)
       (s\<lparr>job_extranonce := Some (extranonce1, extranonce2_size)\<rparr>)"

definition listener_set_extranonce :: "pyval \<Rightarrow> pyval \<Rightarrow> proxy_state \<Rightarrow> proxy_state" where
  \<comment> \<open>Modelled from the spec: \<open>StratumProxyService._set_extranonce\<close> (mining_libs is
      missing): the listener keeps the pair it replies to a worker's subscribe with
      (section 4.4).\<close>
  "listener_set_extranonce extranonce1 extranonce2_size s =
     emit (ListenerSetExtranonce extranonce1 extranonce2_size)
       (s\<lparr>listener_extranonce := Some (extranonce1, extranonce2_size)\<rparr>)"

definition rpc :: "string \<Rightarrow> pyval list \<Rightarrow> proxy_state \<Rightarrow> proxy_state" where
  \<comment> \<open>\<open>f.rpc(method, params)\<close>: the call leaves for the pool.\<close>
  "rpc method params s = emit (Rpc method params) s"

definition workers_authorize :: "pyval \<Rightarrow> pyval \<Rightarrow> proxy_state \<Rightarrow> proxy_state" where
  \<comment> \<open>Modelled from the spec: \<open>WorkerRegistry.authorize\<close> as \<open>on_connect\<close> calls it, with
      the override identity (mining_libs is missing). Section 4.1: an authorize call
      with that identity is issued to the pool; \<open>on_connect\<close> does not wait for the
      answer.\<close>
  "workers_authorize user password s =
     rpc ''mining.authorize'' [user, password] (emit (WorkersAuthorize user password) s)"

section \<open>The handlers of \<open>mining_proxy.py\<close>\<close>

definition on_shutdown :: "proxy_state \<Rightarrow> proxy_state" where
  "on_shutdown s =
     (emit (Log Info ''Shutting down proxy...'' []) s)\<lparr>is_reconnecting := False\<rparr>"

text \<open>
  \<open>on_connect\<close> is a generator: it runs up to \<open>yield f.rpc('mining.subscribe', [])\<close>
  and is resumed with the reply. \<open>on_connect_begin\<close> is the part before the \<open>yield\<close>,
  \<open>on_connect_resume\<close> the part after it; the reply is \<open>None\<close> when the call fails (the
  \<open>yield\<close> raises) and the decoded JSON array otherwise.
\<close>

definition on_connect_begin :: "proxy_state \<Rightarrow> proxy_state" where
  "on_connect_begin s =
     (let s1 = emit (Log Info ''Connected to Stratum pool at %s:%d''
                  [PStr (fst (main_host s)), PInt (snd (main_host s))]) s;
          s2 = emit HookOnConnect (s1\<lparr>connect_hooked := True\<rparr>);
          s3 = clear_authorizations s2;
          s4 = emit (Log Info ''Subscribing for mining jobs'' []) s3
      in rpc ''mining.subscribe'' [] s4)"

definition on_connect_resume ::
  "args \<Rightarrow> pyval list option \<Rightarrow> proxy_state \<Rightarrow> error option \<times> proxy_state" where
  "on_connect_resume a reply s =
     (case reply of
        None \<Rightarrow> (Some RpcError, emit (Raise RpcError) s)
      | Some r \<Rightarrow>
          (case take 3 r of
             [_, extranonce1, extranonce2_size] \<Rightarrow>
               (let s1 = set_extranonce extranonce1 extranonce2_size s;
                    s2 = listener_set_extranonce extranonce1 extranonce2_size s1;
                    s3 = (if truthy (custom_user a)
                          then workers_authorize (custom_user a) (custom_password a)
                                 (emit (Log Warning ''Authorizing custom user %s, password %s''
                                    [custom_user a, custom_password a]) s2)
                          else s2)
                in (None, s3))
           | _ \<Rightarrow> (Some ValueError, emit (Raise ValueError) s)))"

definition on_connect ::
  "args \<Rightarrow> pyval list option \<Rightarrow> proxy_state \<Rightarrow> error option \<times> proxy_state" where
  "on_connect a reply s = on_connect_resume a reply (on_connect_begin s)"

definition on_disconnect :: "proxy_state \<Rightarrow> proxy_state" where
  "on_disconnect s =
     (let s1 = emit (Log Info ''Disconnected from Stratum pool at %s:%d''
                  [PStr (fst (main_host s)), PInt (snd (main_host s))]) s;
          s2 = emit HookOnDisconnect (s1\<lparr>disconnect_hooked := True\<rparr>);
          s3 = disconnect_all s2
      in clear_authorizations s3)"

section \<open>\<open>main\<close>: the upstream proxy and the objects it wires\<close>

text \<open>
  \<open>str.split(sep)\<close> for a separator of one character: the pieces between the
  separators, never the empty list (\<open>''.split(':')\<close> is \<open>['']\<close>).
\<close>

fun split_on :: "char \<Rightarrow> string \<Rightarrow> string list" where
  "split_on c [] = [[]]"
| "split_on c (x # xs) =
     (if x = c then [] # split_on c xs
      else (case split_on c xs of
              [] \<Rightarrow> [[x]]
            | w # ws \<Rightarrow> (x # w) # ws))"

text \<open>Lines 149 to 153: \<open>--tor\<close> overwrites the proxy, the host and the port.\<close>

definition main_tor :: "args \<Rightarrow> args" where
  "main_tor a =
     (if tor a
      then a\<lparr>proxy := ''127.0.0.1:9050'', host := ''pool57wkuu5yuhzb.onion'', port := 3333\<rparr>
      else a)"

text \<open>
  Lines 155 to 163: the value \<open>main\<close> binds to \<open>proxy\<close> and hands to
  \<open>SocketTransportClientFactory\<close>. The builtin \<open>int\<close> is the parameter \<open>py_int\<close>:
  \<open>None\<close> where \<open>int\<close> raises \<open>ValueError\<close>.
\<close>

definition main_proxy :: "(string \<Rightarrow> int option) \<Rightarrow> args \<Rightarrow> error + pyval" where
  "main_proxy py_int a0 =
     (let a = main_tor a0 in
      if proxy a \<noteq> [] then
        (let p = split_on CHR '':'' (proxy a) in
         if length p < 2 then Inr (PTuple [PList (map PStr p), PInt 9050])
         else (case py_int (p ! 1) of
                 None \<Rightarrow> Inl ValueError
               | Some n \<Rightarrow> Inr (PTuple [PStr (p ! 0), PInt n])))
      else Inr PNone)"

text \<open>
  A parser of plain decimal numerals (digits only, at least one), to run \<open>main_proxy\<close>
  on concrete command lines: \<open>int\<close> agrees with it on every such string.
\<close>

definition digit_val :: "char \<Rightarrow> int option" where
  "digit_val c =
     (let n = (of_char c :: nat)
      in if 48 \<le> n \<and> n \<le> 57 then Some (int n - 48) else None)"

fun decimal_acc :: "int \<Rightarrow> string \<Rightarrow> int option" where
  "decimal_acc n [] = Some n"
| "decimal_acc n (c # cs) =
     (case digit_val c of None \<Rightarrow> None | Some d \<Rightarrow> decimal_acc (10 * n + d) cs)"

definition decimal_int :: "string \<Rightarrow> int option" where
  "decimal_int s = (if s = [] then None else decimal_acc 0 s)"

text \<open>What a \<open>(host, port)\<close> pair is: a tuple of a string and an integer.\<close>

fun well_formed_proxy :: "pyval \<Rightarrow> bool" where
  "well_formed_proxy (PTuple [PStr h, PInt p]) = True"
| "well_formed_proxy v = False"

text \<open>
  Lines 168 to 182: the factory (which starts with \<open>is_reconnecting\<close> set), the two
  registries, and the first hook of each handler. \<open>width\<close> is the size of the
  extranonce2 range a worker is given.
\<close>

definition main_setup :: "args \<Rightarrow> nat \<Rightarrow> proxy_state" where
  "main_setup a0 width =
     (let a = main_tor a0 in
      \<lparr>main_host = (host a, port a),
       is_reconnecting = True,
       connect_hooked = True,
       disconnect_hooked = True,
       workers = [],
       subscriptions = [],
       job_extranonce = None,
       current_job = None,
       listener_extranonce = None,
       free_ranges = [],
       next_start = 0,
       range_width = width,
       effects = []\<rparr>)"

section \<open>The worker side\<close>

definition find_worker :: "nat \<Rightarrow> proxy_state \<Rightarrow> worker option" where
  "find_worker wid s = find (\<lambda>w. connection_id w = wid) (workers s)"

definition is_authorized :: "nat \<Rightarrow> proxy_state \<Rightarrow> bool" where
  "is_authorized wid s =
     (case find_worker wid s of None \<Rightarrow> False | Some w \<Rightarrow> authorized w)"

definition current_job_id :: "proxy_state \<Rightarrow> string option" where
  "current_job_id s = map_option job_id (current_job s)"

definition extranonce2_space :: "proxy_state \<Rightarrow> nat option" where
  \<comment> \<open>The size of the \<open>extranonce2_size\<close>-bit space of the installed config.\<close>
  "extranonce2_space s =
     (case listener_extranonce s of
        Some (_, PInt n) \<Rightarrow> (if 0 \<le> n then Some (2 ^ nat n) else None)
      | _ \<Rightarrow> None)"

definition allocate_range ::
  "nat \<Rightarrow> proxy_state \<Rightarrow> ((nat \<times> nat) \<times> proxy_state) option" where
  \<comment> \<open>Modelled from the spec: the allocator of \<open>extranonce2_range\<close>s (mining_libs is
      missing). Section 4.4: a free list and a monotonic counter over the space: a
      freed range that fits is taken first, else the next \<open>range_width\<close> values above
      the counter; nothing when the space is used up.\<close>
  "allocate_range space s =
     (case find (\<lambda>r. snd r \<le> space) (free_ranges s) of
        Some r \<Rightarrow> Some (r, s\<lparr>free_ranges := remove1 r (free_ranges s)\<rparr>)
      | None \<Rightarrow>
          (if next_start s + range_width s \<le> space
           then Some ((next_start s, next_start s + range_width s),
                      s\<lparr>next_start := next_start s + range_width s\<rparr>)
           else None))"

definition worker_subscribe ::
  "nat \<Rightarrow> proxy_state \<Rightarrow> (pyval \<times> nat \<times> pyval) option \<times> proxy_state" where
  \<comment> \<open>Modelled from the spec: the local \<open>subscribe\<close> of a WorkerSession (mining_libs is
      missing). Section 4.4: allocate a range and reply with
      \<open>(extranonce1, assigned_start, extranonce2_size)\<close>; section 3: the Worker entry
      is created here. A connection that subscribes again is told the range it holds.\<close>
  "worker_subscribe wid s =
     (case (listener_extranonce s, extranonce2_space s) of
        (Some (extranonce1, extranonce2_size), Some space) \<Rightarrow>
          (case find_worker wid s of
             Some w \<Rightarrow> (Some (extranonce1, fst (extranonce2_range w), extranonce2_size), s)
           | None \<Rightarrow>
               (case allocate_range space s of
                  None \<Rightarrow> (None, s)
                | Some (r, s1) \<Rightarrow>
                    (Some (extranonce1, fst r, extranonce2_size),
                     s1\<lparr>workers := workers s1 @
                          [\<lparr>connection_id = wid, presented_username = [],
                            presented_password = [], authorized = False,
                            extranonce2_range = r\<rparr>],
                        subscriptions := subscriptions s1 @ [wid]\<rparr>)))
      | _ \<Rightarrow> (None, s))"

definition deregister :: "nat \<Rightarrow> proxy_state \<Rightarrow> proxy_state" where
  \<comment> \<open>Modelled from the spec: \<open>WorkerRegistry.deregister\<close> (mining_libs is missing).
      Section 4.3: it removes the worker and frees its range for reuse.\<close>
  "deregister wid s =
     (case find_worker wid s of
        None \<Rightarrow> s
      | Some w \<Rightarrow>
          s\<lparr>workers := filter (\<lambda>v. connection_id v \<noteq> wid) (workers s),
            subscriptions := removeAll wid (subscriptions s),
            free_ranges := extranonce2_range w # free_ranges s\<rparr>)"

definition worker_authorize ::
  "args \<Rightarrow> nat \<Rightarrow> string \<Rightarrow> string \<Rightarrow> bool \<Rightarrow> proxy_state \<Rightarrow> bool \<times> proxy_state" where
  \<comment> \<open>Modelled from the spec: \<open>WorkerRegistry.authorize(worker_id, username, password)\<close>
      (mining_libs is missing). Section 4.3: with an override configured local
      authorization always succeeds; otherwise the call is forwarded upstream and the
      pool's answer is cached against the worker. A connection with no Worker entry
      has nothing to cache the answer in.\<close>
  "worker_authorize a wid username password pool_answer s =
     (case find_worker wid s of
        None \<Rightarrow> (False, s)
      | Some _ \<Rightarrow>
          (let s1 = (if truthy (custom_user a) then s
                     else rpc ''mining.authorize'' [PStr username, PStr password] s);
               ok = (if truthy (custom_user a) then True else pool_answer)
           in (ok,
               s1\<lparr>workers :=
                    map (\<lambda>w. if connection_id w = wid
                              then w\<lparr>presented_username := username,
                                     presented_password := password,
                                     authorized := ok\<rparr>
                              else w) (workers s1)\<rparr>)))"

record share_submission =
  worker_id :: nat
  share_job_id :: string
  extranonce2 :: string
  ntime :: string
  nonce :: string

definition submit ::
  "args \<Rightarrow> nat \<Rightarrow> share_submission \<Rightarrow> share_result \<Rightarrow> proxy_state
     \<Rightarrow> share_result \<times> proxy_state" where
  \<comment> \<open>Modelled from the spec: \<open>ShareRelay.submit(worker_id, submission)\<close> (mining_libs is
      missing). Section 4.5: local rejection when the worker is not authorized or the
      job id is not the current one; otherwise the share goes upstream under the
      override identity, if one is configured, and the pool's verdict is passed back.\<close>
  "submit a wid sub pool_verdict s =
     (case find_worker wid s of
        None \<Rightarrow> (Rejected ''unauthorized'', s)
      | Some w \<Rightarrow>
          (if \<not> authorized w then (Rejected ''unauthorized'', s)
           else if current_job_id s \<noteq> Some (share_job_id sub)
             then (Rejected ''stale job'', s)
           else (pool_verdict,
                 rpc ''mining.submit''
                   [if truthy (custom_user a) then custom_user a
                    else PStr (presented_username w),
                    PStr (share_job_id sub), PStr (extranonce2 sub),
                    PStr (ntime sub), PStr (nonce sub)] s)))"

definition broadcast_targets :: "proxy_state \<Rightarrow> nat list" where
  \<comment> \<open>Every authorized, live WorkerSession.\<close>
  "broadcast_targets s =
     map connection_id
       (filter (\<lambda>w. authorized w \<and> connection_id w \<in> set (subscriptions s)) (workers s))"

definition on_job_notify :: "job \<Rightarrow> proxy_state \<Rightarrow> proxy_state" where
  \<comment> \<open>Modelled from the spec: \<open>JobRegistry.on_job_notify\<close> (mining_libs is missing).
      Section 4.2: the job becomes the current one (only the current job is kept, so
      \<open>clean_jobs\<close> discards nothing more); a changed \<open>prev_block_hash\<close> schedules the
      block notification; the job is broadcast to every authorized, live worker, and
      an installed extranonce config is a precondition of the broadcast.\<close>
  "on_job_notify j s =
     (let s1 = (case current_job s of
                  None \<Rightarrow> s
                | Some old \<Rightarrow>
                    (if prev_block_hash old \<noteq> prev_block_hash j
                     then emit (BlockNotify (prev_block_hash j)) s else s));
          s2 = s1\<lparr>current_job := Some j\<rparr>
      in case job_extranonce s2 of
           None \<Rightarrow> s2
         | Some _ \<Rightarrow> emit (Broadcast j (broadcast_targets s2)) s2)"

section \<open>Events\<close>

text \<open>
  The transport fires the Deferred a handler is hooked to and puts a fresh one in its
  place before the callbacks run: a handler runs on an event when it is hooked, and
  stays hooked only by hooking itself again. After a disconnect the factory retries
  while \<open>is_reconnecting\<close> is set (line 77). A connect event carries the reply to the
  subscribe call and runs \<open>on_connect\<close> to its end: no other event comes in between
  the call and its reply.
\<close>

datatype event =
    Connect "pyval list option"
  | Disconnect
  | Shutdown
  | WorkerSubscribe nat
  | WorkerAuthorize nat string string bool
  | WorkerDeregister nat
  | Submit nat share_submission share_result
  | JobNotify job

definition connect_event :: "args \<Rightarrow> pyval list option \<Rightarrow> proxy_state \<Rightarrow> proxy_state" where
  "connect_event a reply s =
     (if connect_hooked s then snd (on_connect a reply (s\<lparr>connect_hooked := False\<rparr>)) else s)"

definition disconnect_event :: "proxy_state \<Rightarrow> proxy_state" where
  "disconnect_event s =
     (let s1 = (if disconnect_hooked s then on_disconnect (s\<lparr>disconnect_hooked := False\<rparr>)
                else s)
      in if is_reconnecting s1 then emit Reconnect s1 else s1)"

fun step :: "args \<Rightarrow> event \<Rightarrow> proxy_state \<Rightarrow> proxy_state" where
  "step a (Connect reply) s = connect_event a reply s"
| "step a Disconnect s = disconnect_event s"
| "step a Shutdown s = on_shutdown s"
| "step a (WorkerSubscribe wid) s = snd (worker_subscribe wid s)"
| "step a (WorkerAuthorize wid u p ok) s = snd (worker_authorize a wid u p ok s)"
| "step a (WorkerDeregister wid) s = deregister wid s"
| "step a (Submit wid sub verdict) s =
     (case submit a wid sub verdict s of (r, s1) \<Rightarrow> emit (SubmitReply wid r) s1)"
| "step a (JobNotify j) s = on_job_notify j s"

fun run :: "args \<Rightarrow> event list \<Rightarrow> proxy_state \<Rightarrow> proxy_state" where
  "run a [] s = s"
| "run a (e # es) s = run a es (step a e s)"

text \<open>The effects that \<open>es\<close> add to those of \<open>s\<close>.\<close>

definition emitted :: "args \<Rightarrow> event list \<Rightarrow> proxy_state \<Rightarrow> effect list" where
  "emitted a es s = drop (length (effects s)) (effects (run a es s))"

section \<open>Predicates of the properties\<close>

text \<open>An extranonce2 range \<open>(start, end)\<close> stands for the values \<open>start \<le> x < end\<close>.\<close>

definition range_set :: "nat \<times> nat \<Rightarrow> nat set" where
  "range_set r = {fst r..<snd r}"

definition ranges_disjoint :: "nat \<times> nat \<Rightarrow> nat \<times> nat \<Rightarrow> bool" where
  "ranges_disjoint r q = (snd r \<le> fst q \<or> snd q \<le> fst r)"

text \<open>
  What the allocator maintains: no two Worker entries of one connection, every two
  ranges held by a worker or by the free list apart, and all of them below the
  counter.
\<close>

definition alloc_inv :: "proxy_state \<Rightarrow> bool" where
  "alloc_inv s =
     (distinct (map connection_id (workers s)) \<and>
      sorted_wrt ranges_disjoint (map extranonce2_range (workers s) @ free_ranges s) \<and>
      list_all (\<lambda>r. snd r \<le> next_start s) (map extranonce2_range (workers s) @ free_ranges s))"

definition all_unauthorized :: "proxy_state \<Rightarrow> bool" where
  "all_unauthorized s = list_all (\<lambda>w. \<not> authorized w) (workers s)"

text \<open>The effects that authorize an identity at the pool on behalf of \<open>on_connect\<close>.\<close>

fun is_authorize_call :: "effect \<Rightarrow> bool" where
  "is_authorize_call (WorkersAuthorize u p) = True"
| "is_authorize_call (Rpc m ps) = (m = ''mining.authorize'')"
| "is_authorize_call e = False"



text \<open>
  What line 92 unpacks from the reply to the subscribe call: the second and the third
  element, when the call has returned an array of three elements or more; nothing
  when the call has failed or the array is shorter (the unpacking raises).
\<close>

fun reply_pair :: "pyval list option \<Rightarrow> (pyval \<times> pyval) option" where
  "reply_pair (Some (x # extranonce1 # extranonce2_size # rest)) =
     Some (extranonce1, extranonce2_size)"
| "reply_pair r = None"

text \<open>The log lines among the effects.\<close>

fun is_log :: "effect \<Rightarrow> bool" where
  "is_log (Log l m ps) = True"
| "is_log e = False"

section \<open>Concrete inputs\<close>

text \<open>The defaults of \<open>parse_args\<close>.\<close>

definition default_args :: args where
  "default_args =
     \<lparr>host = ''stratum.bitcoin.cz'', port = 3333, custom_user = PNone,
      custom_password = PNone, proxy = [], tor = False\<rparr>"

definition override_args :: args where
  "override_args = default_args\<lparr>custom_user := PStr ''pool.user'', custom_password := PStr ''x''\<rparr>"

definition subscribe_reply :: "pyval list" where
  "subscribe_reply =
     [PList [PStr ''mining.notify'', PStr ''ae6812eb4cd7735a302a8a9dd95cf71f''],
      PStr ''08000002'', PInt 16]"

definition job1 :: job where
  "job1 =
     \<lparr>job_id = ''J1'', prev_block_hash = ''00000000a1'', coinbase_part1 = ''0100'',
      coinbase_part2 = ''ffff'', merkle_branch = [], block_version = ''00000002'',
      bits = ''1c2ac4af'', time = ''504e86b9'', clean_jobs = True\<rparr>"

definition share1 :: share_submission where
  "share1 =
     \<lparr>worker_id = 1, share_job_id = ''J1'', extranonce2 = ''00000001'',
      ntime = ''504e86ed'', nonce = ''b2957c02''\<rparr>"

section \<open>Basic facts\<close>

lemmas handler_defs = on_connect_def on_connect_begin_def on_connect_resume_def on_disconnect_def
  on_shutdown_def clear_authorizations_def disconnect_all_def set_extranonce_def
  listener_set_extranonce_def rpc_def workers_authorize_def emit_def

lemmas worker_defs = worker_subscribe_def allocate_range_def worker_authorize_def deregister_def
  submit_def on_job_notify_def

lemmas event_defs = connect_event_def disconnect_event_def

subsection \<open>Effects only grow\<close>

lemma effects_step_prefix: "\<exists>xs. effects (step a e s) = effects s @ xs"
  by (cases e)
    (auto simp: handler_defs worker_defs event_defs Let_def
      split: option.splits list.splits prod.splits pyval.splits if_splits)

lemma effects_run_prefix: "\<exists>xs. effects (run a es s) = effects s @ xs"
proof (induction es arbitrary: s)
  case Nil
  show ?case by simp
next
  case (Cons e es)
  obtain xs where xs: "effects (step a e s) = effects s @ xs"
    using effects_step_prefix by blast
  obtain ys where ys: "effects (run a es (step a e s)) = effects (step a e s) @ ys"
    using Cons.IH by blast
  show ?case by (simp add: xs ys)
qed

lemma effects_run_emitted: "effects (run a es s) = effects s @ emitted a es s"
proof -
  obtain xs where "effects (run a es s) = effects s @ xs"
    using effects_run_prefix by blast
  then show ?thesis by (simp add: emitted_def)
qed

lemma run_append: "run a (es1 @ es2) s = run a es2 (run a es1 s)"
  by (induction es1 arbitrary: s) simp_all

lemma emitted_append:
  "emitted a (es1 @ es2) s = emitted a es1 s @ emitted a es2 (run a es1 s)"
proof -
  have "effects (run a (es1 @ es2) s) = effects s @ emitted a es1 s @ emitted a es2 (run a es1 s)"
    by (simp add: run_append effects_run_emitted)
  then show ?thesis
    by (simp add: emitted_def)
qed

lemma emitted_Cons: "emitted a (e # es) s = emitted a [e] s @ emitted a es (step a e s)"
  using emitted_append [of a "[e]" es s] by simp

lemma emitted_Nil: "emitted a [] s = []"
  by (simp add: emitted_def)

subsection \<open>The handlers stay hooked\<close>

lemma hooked_step:
  "connect_hooked s \<and> disconnect_hooked s \<Longrightarrow>
   connect_hooked (step a e s) \<and> disconnect_hooked (step a e s)"
  by (cases e)
    (auto simp: handler_defs worker_defs event_defs Let_def
      split: option.splits list.splits prod.splits pyval.splits if_splits)

lemma hooked_run:
  "connect_hooked s \<and> disconnect_hooked s \<Longrightarrow>
   connect_hooked (run a es s) \<and> disconnect_hooked (run a es s)"
proof (induction es arbitrary: s)
  case Nil
  then show ?case by simp
next
  case (Cons e es)
  from hooked_step [OF Cons.prems] show ?case
    by (simp add: Cons.IH)
qed

lemma hooked_reachable:
  "connect_hooked (run a es (main_setup a w)) \<and> disconnect_hooked (run a es (main_setup a w))"
  by (rule hooked_run) (simp add: main_setup_def Let_def)

subsection \<open>What a connect and a disconnect event do\<close>

lemma emitted_Disconnect:
  "disconnect_hooked s \<Longrightarrow>
   emitted a [Disconnect] s =
     [Log Info ''Disconnected from Stratum pool at %s:%d''
        [PStr (fst (main_host s)), PInt (snd (main_host s))],
      HookOnDisconnect, DisconnectAll, ClearAuthorizations] @
     (if is_reconnecting s then [Reconnect] else [])"
  by (simp add: emitted_def handler_defs event_defs Let_def)

lemma emitted_Connect_ok:
  "connect_hooked s \<Longrightarrow>
   emitted a [Connect (Some (x # e1 # e2 # rest))] s =
     [Log Info ''Connected to Stratum pool at %s:%d''
        [PStr (fst (main_host s)), PInt (snd (main_host s))],
      HookOnConnect, ClearAuthorizations, Log Info ''Subscribing for mining jobs'' [],
      Rpc ''mining.subscribe'' [],
      JobSetExtranonce e1 e2, ListenerSetExtranonce e1 e2] @
     (if truthy (custom_user a)
      then [Log Warning ''Authorizing custom user %s, password %s''
              [custom_user a, custom_password a],
            WorkersAuthorize (custom_user a) (custom_password a),
            Rpc ''mining.authorize'' [custom_user a, custom_password a]]
      else [])"
  by (simp add: emitted_def handler_defs event_defs Let_def)


lemma state_Connect_ok:
  "connect_hooked s \<Longrightarrow>
   all_unauthorized (step a (Connect (Some (x # e1 # e2 # rest))) s) \<and>
   job_extranonce (step a (Connect (Some (x # e1 # e2 # rest))) s) = Some (e1, e2) \<and>
   listener_extranonce (step a (Connect (Some (x # e1 # e2 # rest))) s) = Some (e1, e2) \<and>
   connect_hooked (step a (Connect (Some (x # e1 # e2 # rest))) s)"
  by (simp add: all_unauthorized_def handler_defs event_defs Let_def list_all_iff)

subsection \<open>The factory's attributes\<close>

lemma main_host_step: "main_host (step a e s) = main_host s"
  by (cases e)
    (auto simp: handler_defs worker_defs event_defs Let_def
      split: option.splits list.splits prod.splits pyval.splits if_splits)

lemma main_host_run: "main_host (run a es s) = main_host s"
  by (induction es arbitrary: s) (simp_all add: main_host_step)

lemma not_reconnecting_step: "\<not> is_reconnecting s \<Longrightarrow> \<not> is_reconnecting (step a e s)"
  by (cases e)
    (auto simp: handler_defs worker_defs event_defs Let_def
      split: option.splits list.splits prod.splits pyval.splits if_splits)

lemma not_reconnecting_run: "\<not> is_reconnecting s \<Longrightarrow> \<not> is_reconnecting (run a es s)"
  by (induction es arbitrary: s) (simp_all add: not_reconnecting_step)

lemma no_Reconnect_step: "\<not> is_reconnecting s \<Longrightarrow> Reconnect \<notin> set (emitted a [e] s)"
  by (cases e)
    (auto simp: emitted_def handler_defs worker_defs event_defs Let_def
      split: option.splits list.splits prod.splits pyval.splits if_splits)

lemma no_Reconnect_run: "\<not> is_reconnecting s \<Longrightarrow> Reconnect \<notin> set (emitted a es s)"
proof (induction es arbitrary: s)
  case Nil
  show ?case by (simp add: emitted_Nil)
next
  case (Cons e es)
  have "Reconnect \<notin> set (emitted a [e] s)"
    using Cons.prems by (rule no_Reconnect_step)
  moreover have "Reconnect \<notin> set (emitted a es (step a e s))"
    using Cons.prems by (intro Cons.IH not_reconnecting_step)
  ultimately show ?case
    by (simp add: emitted_Cons [of a e es s])
qed

subsection \<open>Any reply to the subscribe call\<close>

lemma emitted_Connect:
  "connect_hooked s \<Longrightarrow>
   emitted a [Connect r] s =
     [Log Info ''Connected to Stratum pool at %s:%d''
        [PStr (fst (main_host s)), PInt (snd (main_host s))],
      HookOnConnect, ClearAuthorizations, Log Info ''Subscribing for mining jobs'' [],
      Rpc ''mining.subscribe'' []] @
     (case r of
        None \<Rightarrow> [Raise RpcError]
      | Some l \<Rightarrow>
          (case take 3 l of
             [x, e1, e2] \<Rightarrow>
               [JobSetExtranonce e1 e2, ListenerSetExtranonce e1 e2] @
               (if truthy (custom_user a)
                then [Log Warning ''Authorizing custom user %s, password %s''
                        [custom_user a, custom_password a],
                      WorkersAuthorize (custom_user a) (custom_password a),
                      Rpc ''mining.authorize'' [custom_user a, custom_password a]]
                else [])
           | _ \<Rightarrow> [Raise ValueError]))"
  by (simp add: emitted_def handler_defs event_defs Let_def
      split: option.splits list.splits)

lemma state_Connect:
  "connect_hooked s \<Longrightarrow>
   all_unauthorized (step a (Connect r) s) \<and> connect_hooked (step a (Connect r) s)"
  by (simp add: all_unauthorized_def handler_defs event_defs Let_def list_all_iff
      split: option.splits list.splits)

lemma extranonce_step:
  "job_extranonce s = listener_extranonce s \<Longrightarrow>
   job_extranonce (step a e s) = listener_extranonce (step a e s)"
  by (cases e)
    (auto simp: handler_defs worker_defs event_defs Let_def
      split: option.splits list.splits prod.splits pyval.splits if_splits)

lemma extranonce_run:
  "job_extranonce s = listener_extranonce s \<Longrightarrow>
   job_extranonce (run a es s) = listener_extranonce (run a es s)"
  by (induction es arbitrary: s) (simp_all add: extranonce_step)

lemma main_host_reachable:
  "main_host (run a es (main_setup a w)) = (host (main_tor a), port (main_tor a))"
  by (simp add: main_host_run main_setup_def Let_def)

lemma emitted_Connect_pair:
  "connect_hooked s \<Longrightarrow>
   emitted a [Connect r] s =
     [Log Info ''Connected to Stratum pool at %s:%d''
        [PStr (fst (main_host s)), PInt (snd (main_host s))],
      HookOnConnect, ClearAuthorizations, Log Info ''Subscribing for mining jobs'' [],
      Rpc ''mining.subscribe'' []] @
     (case reply_pair r of
        None \<Rightarrow> [Raise (if r = None then RpcError else ValueError)]
      | Some (extranonce1, extranonce2_size) \<Rightarrow>
          [JobSetExtranonce extranonce1 extranonce2_size,
           ListenerSetExtranonce extranonce1 extranonce2_size] @
          (if truthy (custom_user a)
           then [Log Warning ''Authorizing custom user %s, password %s''
                   [custom_user a, custom_password a],
                 WorkersAuthorize (custom_user a) (custom_password a),
                 Rpc ''mining.authorize'' [custom_user a, custom_password a]]
           else []))"
  by (cases r rule: reply_pair.cases) (simp_all add: emitted_Connect)

lemma extranonce_Connect:
  "connect_hooked s \<Longrightarrow>
   job_extranonce (step a (Connect r) s) =
     (case reply_pair r of None \<Rightarrow> job_extranonce s | Some p \<Rightarrow> Some p) \<and>
   listener_extranonce (step a (Connect r) s) =
     (case reply_pair r of None \<Rightarrow> listener_extranonce s | Some p \<Rightarrow> Some p)"
  by (cases r rule: reply_pair.cases)
    (simp_all add: handler_defs event_defs Let_def)

subsection \<open>Splitting at a separator\<close>

lemma split_on_not_Nil: "split_on c s \<noteq> []"
  by (induction s) (auto split: list.splits)

lemma split_on_no_sep: "c \<notin> set s \<Longrightarrow> split_on c s = [s]"
  by (induction s) auto

lemma split_on_sep: "c \<in> set s \<Longrightarrow> 2 \<le> length (split_on c s)"
proof (induction s)
  case Nil
  then show ?case by simp
next
  case (Cons x xs)
  show ?case
  proof (cases "x = c")
    case True
    have "split_on c xs \<noteq> []" by (rule split_on_not_Nil)
    then have "1 \<le> length (split_on c xs)"
      by (cases "split_on c xs") simp_all
    with True show ?thesis by simp
  next
    case False
    with Cons.prems have "c \<in> set xs" by auto
    then have "2 \<le> length (split_on c xs)" by (rule Cons.IH)
    with False show ?thesis
      by (cases "split_on c xs") auto
  qed
qed

subsection \<open>Ranges that stay apart\<close>

lemma ranges_disjoint_sym: "ranges_disjoint r q \<Longrightarrow> ranges_disjoint q r"
  by (auto simp: ranges_disjoint_def)

lemma ranges_disjoint_sets: "ranges_disjoint r q \<Longrightarrow> range_set r \<inter> range_set q = {}"
  by (auto simp: ranges_disjoint_def range_set_def)

lemma apart_move:
  "sorted_wrt ranges_disjoint (y # xs @ ys) \<Longrightarrow> sorted_wrt ranges_disjoint (xs @ y # ys)"
  by (auto simp: sorted_wrt_append dest: ranges_disjoint_sym)

lemma apart_remove1:
  "sorted_wrt ranges_disjoint xs \<Longrightarrow> r \<in> set xs \<Longrightarrow>
   sorted_wrt ranges_disjoint (r # remove1 r xs)"
proof (induction xs)
  case Nil
  then show ?case by simp
next
  case (Cons x xs)
  show ?case
  proof (cases "x = r")
    case True
    with Cons.prems show ?thesis by simp
  next
    case False
    with Cons.prems have r: "r \<in> set xs" and xs: "sorted_wrt ranges_disjoint xs"
      and x: "\<forall>y\<in>set xs. ranges_disjoint x y"
      by auto
    from Cons.IH [OF xs r] have ih: "sorted_wrt ranges_disjoint (r # remove1 r xs)" .
    have sub: "set (remove1 r xs) \<subseteq> set xs"
      by (rule set_remove1_subset)
    from x r have "ranges_disjoint r x"
      by (blast dest: ranges_disjoint_sym)
    with ih x sub False show ?thesis
      by auto
  qed
qed

lemma apart_take_free:
  assumes "sorted_wrt ranges_disjoint (rs @ fr)" and "r \<in> set fr"
  shows "sorted_wrt ranges_disjoint ((rs @ [r]) @ remove1 r fr)"
proof -
  from assms have fr: "sorted_wrt ranges_disjoint fr" and rs: "sorted_wrt ranges_disjoint rs"
    and cross: "\<forall>x\<in>set rs. \<forall>y\<in>set fr. ranges_disjoint x y"
    by (auto simp: sorted_wrt_append)
  from apart_remove1 [OF fr assms(2)] have "sorted_wrt ranges_disjoint (r # remove1 r fr)" .
  moreover have "set (r # remove1 r fr) \<subseteq> set fr"
    using assms(2) set_remove1_subset [of r fr] by auto
  ultimately show ?thesis
    using rs cross by (auto simp: sorted_wrt_append)
qed

lemma apart_deregister:
  "distinct (map connection_id ws) \<Longrightarrow>
   find (\<lambda>v. connection_id v = wid) ws = Some w \<Longrightarrow>
   sorted_wrt ranges_disjoint (map extranonce2_range ws @ fr) \<Longrightarrow>
   sorted_wrt ranges_disjoint
     (map extranonce2_range (filter (\<lambda>v. connection_id v \<noteq> wid) ws) @ extranonce2_range w # fr)"
proof (induction ws)
  case Nil
  then show ?case by simp
next
  case (Cons v vs)
  show ?case
  proof (cases "connection_id v = wid")
    case True
    with Cons.prems have w: "w = v" by simp
    from True Cons.prems(1) have "\<forall>u\<in>set vs. connection_id u \<noteq> wid"
      by (auto simp: image_iff)
    then have keep: "filter (\<lambda>u. connection_id u \<noteq> wid) vs = vs"
      by (simp add: filter_id_conv)
    from Cons.prems(3)
    have "sorted_wrt ranges_disjoint (extranonce2_range v # map extranonce2_range vs @ fr)"
      by simp
    then have "sorted_wrt ranges_disjoint (map extranonce2_range vs @ extranonce2_range v # fr)"
      by (rule apart_move)
    with True w keep show ?thesis by simp
  next
    case False
    with Cons.prems have f: "find (\<lambda>v. connection_id v = wid) vs = Some w"
      and d: "distinct (map connection_id vs)"
      and s: "sorted_wrt ranges_disjoint (map extranonce2_range vs @ fr)"
      and x: "\<forall>y\<in>set (map extranonce2_range vs @ fr). ranges_disjoint (extranonce2_range v) y"
      by auto
    from f have "w \<in> set vs"
      by (auto simp: find_Some_iff)
    then have "set (map extranonce2_range (filter (\<lambda>v. connection_id v \<noteq> wid) vs) @
                 extranonce2_range w # fr) \<subseteq> set (map extranonce2_range vs @ fr)"
      by auto
    with x have "\<forall>y\<in>set (map extranonce2_range (filter (\<lambda>v. connection_id v \<noteq> wid) vs) @
                 extranonce2_range w # fr). ranges_disjoint (extranonce2_range v) y"
      by blast
    with Cons.IH [OF d f s] False show ?thesis
      by simp
  qed
qed

lemma apart_members:
  "sorted_wrt ranges_disjoint (map extranonce2_range ws) \<Longrightarrow>
   v1 \<in> set ws \<Longrightarrow> v2 \<in> set ws \<Longrightarrow> connection_id v1 \<noteq> connection_id v2 \<Longrightarrow>
   ranges_disjoint (extranonce2_range v1) (extranonce2_range v2)"
  by (induction ws) (auto dest: ranges_disjoint_sym)

subsection \<open>The allocator's invariant\<close>

lemma alloc_inv_frame:
  "alloc_inv s \<Longrightarrow>
   map connection_id (workers s') = map connection_id (workers s) \<Longrightarrow>
   map extranonce2_range (workers s') = map extranonce2_range (workers s) \<Longrightarrow>
   free_ranges s' = free_ranges s \<Longrightarrow> next_start s' = next_start s \<Longrightarrow>
   alloc_inv s'"
  by (simp add: alloc_inv_def)

lemma map_clear:
  "map connection_id (map (\<lambda>w. w\<lparr>authorized := False\<rparr>) ws) = map connection_id ws"
  "map extranonce2_range (map (\<lambda>w. w\<lparr>authorized := False\<rparr>) ws) = map extranonce2_range ws"
  by (induction ws) auto

lemma map_authorize:
  "map connection_id
     (map (\<lambda>w. if connection_id w = wid
                then w\<lparr>presented_username := u, presented_password := p, authorized := ok\<rparr>
                else w) ws) = map connection_id ws"
  "map extranonce2_range
     (map (\<lambda>w. if connection_id w = wid
                then w\<lparr>presented_username := u, presented_password := p, authorized := ok\<rparr>
                else w) ws) = map extranonce2_range ws"
  by (induction ws) auto

lemma find_in_set: "find P xs = Some x \<Longrightarrow> x \<in> set xs \<and> P x"
  by (auto simp: find_Some_iff)

lemma alloc_inv_allocate:
  assumes inv: "alloc_inv s" and new: "find_worker wid s = None"
    and al: "allocate_range space s = Some (r, s1)"
  shows "alloc_inv (s1\<lparr>workers := workers s1 @
            [\<lparr>connection_id = wid, presented_username = u, presented_password = p,
              authorized = b, extranonce2_range = r\<rparr>],
          subscriptions := subs\<rparr>)"
proof -
  from new have fresh: "wid \<notin> set (map connection_id (workers s))"
    by (auto simp: find_worker_def find_None_iff)
  from inv have d: "distinct (map connection_id (workers s))"
    and ap: "sorted_wrt ranges_disjoint (map extranonce2_range (workers s) @ free_ranges s)"
    and bd: "\<forall>q\<in>set (map extranonce2_range (workers s) @ free_ranges s). snd q \<le> next_start s"
    by (simp_all add: alloc_inv_def list_all_iff)
  show ?thesis
  proof (cases "find (\<lambda>r. snd r \<le> space) (free_ranges s)")
    case (Some q)
    with al have r: "r = q" and s1: "s1 = s\<lparr>free_ranges := remove1 q (free_ranges s)\<rparr>"
      by (auto simp: allocate_range_def)
    from Some have mem: "q \<in> set (free_ranges s)"
      using find_in_set by fastforce
    from apart_take_free [OF ap mem]
    have ap': "sorted_wrt ranges_disjoint
        ((map extranonce2_range (workers s) @ [q]) @ remove1 q (free_ranges s))" .
    have "set ((map extranonce2_range (workers s) @ [q]) @ remove1 q (free_ranges s)) \<subseteq>
        set (map extranonce2_range (workers s) @ free_ranges s)"
      using mem set_remove1_subset [of q "free_ranges s"] by auto
    with bd have bd': "\<forall>x\<in>set ((map extranonce2_range (workers s) @ [q]) @
        remove1 q (free_ranges s)). snd x \<le> next_start s"
      by blast
    from d fresh ap' bd' show ?thesis
      by (simp add: alloc_inv_def list_all_iff r s1)
  next
    case None
    with al have fits: "next_start s + range_width s \<le> space"
      and r: "r = (next_start s, next_start s + range_width s)"
      and s1: "s1 = s\<lparr>next_start := next_start s + range_width s\<rparr>"
      by (auto simp: allocate_range_def split: if_splits)
    from ap bd have "sorted_wrt ranges_disjoint
        ((map extranonce2_range (workers s) @ [r]) @ free_ranges s)"
      by (auto simp: sorted_wrt_append ranges_disjoint_def r)
    moreover have "\<forall>x\<in>set ((map extranonce2_range (workers s) @ [r]) @ free_ranges s).
        snd x \<le> next_start s + range_width s"
    proof
      fix x
      assume "x \<in> set ((map extranonce2_range (workers s) @ [r]) @ free_ranges s)"
      then have "x = r \<or> x \<in> set (map extranonce2_range (workers s) @ free_ranges s)"
        by auto
      then show "snd x \<le> next_start s + range_width s"
      proof
        assume "x = r"
        then show ?thesis by (simp add: r)
      next
        assume "x \<in> set (map extranonce2_range (workers s) @ free_ranges s)"
        with bd have "snd x \<le> next_start s" by blast
        then show ?thesis by simp
      qed
    qed
    ultimately show ?thesis
      using d fresh by (simp add: alloc_inv_def list_all_iff r s1)
  qed
qed

lemma alloc_inv_subscribe: "alloc_inv s \<Longrightarrow> alloc_inv (snd (worker_subscribe wid s))"
  by (auto simp: worker_subscribe_def alloc_inv_allocate
      split: option.splits prod.splits pyval.splits)

lemma alloc_inv_deregister: "alloc_inv s \<Longrightarrow> alloc_inv (deregister wid s)"
proof (cases "find_worker wid s")
  case None
  assume "alloc_inv s"
  with None show ?thesis by (simp add: deregister_def)
next
  case (Some w)
  assume inv: "alloc_inv s"
  from Some have f: "find (\<lambda>v. connection_id v = wid) (workers s) = Some w"
    by (simp add: find_worker_def)
  from inv have d: "distinct (map connection_id (workers s))"
    and ap: "sorted_wrt ranges_disjoint (map extranonce2_range (workers s) @ free_ranges s)"
    and bd: "\<forall>q\<in>set (map extranonce2_range (workers s) @ free_ranges s). snd q \<le> next_start s"
    by (simp_all add: alloc_inv_def list_all_iff)
  from f have mem: "w \<in> set (workers s)"
    using find_in_set by fastforce
  have d': "distinct (map connection_id (filter (\<lambda>v. connection_id v \<noteq> wid) (workers s)))"
    using d by (rule distinct_map_filter)
  from mem bd have bd': "\<forall>q\<in>set (map extranonce2_range
        (filter (\<lambda>v. connection_id v \<noteq> wid) (workers s)) @ extranonce2_range w # free_ranges s).
      snd q \<le> next_start s"
    by auto
  from apart_deregister [OF d f ap] d' bd' Some show ?thesis
    by (simp add: deregister_def alloc_inv_def list_all_iff)
qed

lemma alloc_inv_step: "alloc_inv s \<Longrightarrow> alloc_inv (step a e s)"
proof (cases e)
  case (WorkerSubscribe wid)
  assume "alloc_inv s"
  with WorkerSubscribe show ?thesis by (simp add: alloc_inv_subscribe)
next
  case (WorkerDeregister wid)
  assume "alloc_inv s"
  with WorkerDeregister show ?thesis by (simp add: alloc_inv_deregister)
next
  case (Connect r)
  assume "alloc_inv s"
  then show ?thesis
    by (rule alloc_inv_frame)
      (simp_all add: Connect handler_defs event_defs Let_def map_clear
        split: option.splits list.splits)
next
  case Disconnect
  assume "alloc_inv s"
  then show ?thesis
    by (rule alloc_inv_frame)
      (simp_all add: Disconnect handler_defs event_defs Let_def map_clear)
next
  case Shutdown
  assume "alloc_inv s"
  then show ?thesis
    by (rule alloc_inv_frame) (simp_all add: Shutdown handler_defs)
next
  case (WorkerAuthorize wid u p ok)
  assume "alloc_inv s"
  then show ?thesis
    by (rule alloc_inv_frame)
      (simp_all add: WorkerAuthorize worker_authorize_def rpc_def emit_def Let_def map_authorize
        split: option.splits)
next
  case (Submit wid sub verdict)
  assume "alloc_inv s"
  then show ?thesis
    by (rule alloc_inv_frame)
      (simp_all add: Submit submit_def rpc_def emit_def split: option.splits prod.splits)
next
  case (JobNotify j)
  assume "alloc_inv s"
  then show ?thesis
    by (rule alloc_inv_frame)
      (simp_all add: JobNotify on_job_notify_def emit_def Let_def split: option.splits)
qed

lemma alloc_inv_run: "alloc_inv s \<Longrightarrow> alloc_inv (run a es s)"
  by (induction es arbitrary: s) (simp_all add: alloc_inv_step)

lemma alloc_inv_reachable: "alloc_inv (run a es (main_setup a w))"
  by (rule alloc_inv_run) (simp add: alloc_inv_def main_setup_def Let_def)

subsection \<open>While no worker is authorized\<close>







subsection \<open>Evaluating concrete runs\<close>

lemmas example_defs = main_setup_def main_tor_def default_args_def override_args_def
  subscribe_reply_def job1_def share1_def

lemmas eval_defs = handler_defs worker_defs event_defs example_defs is_authorized_def
  find_worker_def extranonce2_space_def current_job_id_def broadcast_targets_def
  emitted_def Let_def

lemma example_workers:
  "workers (run default_args
      [Connect (Some subscribe_reply), WorkerSubscribe 1, WorkerSubscribe 2, WorkerDeregister 1,
       WorkerSubscribe 3] (main_setup default_args 1000)) =
     [\<lparr>connection_id = 2, presented_username = [], presented_password = [],
       authorized = False, extranonce2_range = (1000, 2000)\<rparr>,
      \<lparr>connection_id = 3, presented_username = [], presented_password = [],
       authorized = False, extranonce2_range = (0, 1000)\<rparr>]"
  by (simp add: eval_defs)

section \<open>Shutdown\<close>

text \<open>
  C7. Calling \<open>on_shutdown\<close> twice in succession leaves the proxy in the state that
  one call leaves it in, with the same effects apart from the log:
  \<open>is_reconnecting\<close> is false, nothing else has changed, no effect other than a log
  line is repeated, and the second call cannot fail. Logging is outside the system
  that the spec describes (section 1); what the second call adds to it is one more
  info line \<open>Shutting down proxy...\<close>.
\<close>

theorem shutdown_twice:
  "(on_shutdown (on_shutdown s))\<lparr>effects := effects (on_shutdown s)\<rparr> = on_shutdown s \<and>
   filter (\<lambda>e. \<not> is_log e) (effects (on_shutdown (on_shutdown s))) =
     filter (\<lambda>e. \<not> is_log e) (effects (on_shutdown s)) \<and>
   \<not> is_reconnecting (on_shutdown (on_shutdown s)) \<and>
   on_shutdown (on_shutdown s) = emit (Log Info ''Shutting down proxy...'' []) (on_shutdown s)"
  by (simp add: on_shutdown_def emit_def)

text \<open>
  C6 (amended). After \<open>on_shutdown\<close> has run, whatever has happened before (\<open>es0\<close>)
  and whatever happens afterwards (\<open>es\<close>): \<open>is_reconnecting\<close> stays false and no
  reconnect is attempted. The disconnect handler has no guard on the flag: on every
  later disconnect event it still runs in full, that is, it logs, hooks itself
  again, disconnects all subscriptions and clears the authorizations.
\<close>

theorem after_shutdown:
  "Reconnect \<notin> set (emitted a es (on_shutdown (run a es0 (main_setup a w)))) \<and>
   \<not> is_reconnecting (run a es (on_shutdown (run a es0 (main_setup a w)))) \<and>
   emitted a [Disconnect] (run a es (on_shutdown (run a es0 (main_setup a w)))) =
     [Log Info ''Disconnected from Stratum pool at %s:%d''
        [PStr (host (main_tor a)), PInt (port (main_tor a))],
      HookOnDisconnect, DisconnectAll, ClearAuthorizations]"
proof -
  let ?s = "on_shutdown (run a es0 (main_setup a w))"
  have off: "\<not> is_reconnecting ?s"
    by (simp add: on_shutdown_def)
  have run: "run a es ?s = run a (es0 @ Shutdown # es) (main_setup a w)"
    by (simp add: run_append)
  have hooked: "disconnect_hooked (run a es ?s)"
    unfolding run using hooked_reachable by blast
  have host: "main_host (run a es ?s) = (host (main_tor a), port (main_tor a))"
    unfolding run by (simp add: main_host_run main_setup_def Let_def)
  show ?thesis
    using no_Reconnect_run [OF off] not_reconnecting_run [OF off]
    by (simp add: emitted_Disconnect [OF hooked] host)
qed

text \<open>
  C6 as stated (a disconnect after shutdown produces no reaction) fails: worker 1 is
  authorized when the proxy shuts down, and the disconnect event that follows runs
  the handler, which takes the authorization away.
\<close>

theorem after_shutdown_counterexample:
  "is_authorized 1 (run default_args
      [Connect (Some subscribe_reply), WorkerSubscribe 1, WorkerAuthorize 1 ''a'' ''b'' True, Shutdown]
      (main_setup default_args 1000)) \<and>
   \<not> is_authorized 1 (run default_args
      [Connect (Some subscribe_reply), WorkerSubscribe 1, WorkerAuthorize 1 ''a'' ''b'' True, Shutdown,
       Disconnect]
      (main_setup default_args 1000)) \<and>
   emitted default_args [Disconnect] (run default_args
      [Connect (Some subscribe_reply), WorkerSubscribe 1, WorkerAuthorize 1 ''a'' ''b'' True, Shutdown]
      (main_setup default_args 1000)) =
     [Log Info ''Disconnected from Stratum pool at %s:%d''
        [PStr ''stratum.bitcoin.cz'', PInt 3333],
      HookOnDisconnect, DisconnectAll, ClearAuthorizations]"
  by (simp add: eval_defs)

section \<open>The disconnect handler\<close>



section \<open>The connect handler\<close>

text \<open>
  C5 (amended). On every connect event, after any history \<open>es\<close> (so also on every
  reconnection), the handler runs and hooks itself for the next event. Whatever the
  reply \<open>r\<close>, it first clears all worker authorizations and then issues
  \<open>mining.subscribe\<close>. When the call returns an array of three or more elements, the
  handler takes the second and the third and installs that pair in both copies of
  the extranonce config, right after the subscribe call. When the call fails or the
  array is shorter, the handler raises at the unpacking and installs nothing: both
  copies stay as they were.
\<close>

theorem connect_handshake:
  "(let s = run a es (main_setup a w) in
    take 5 (emitted a [Connect r] s) =
      [Log Info ''Connected to Stratum pool at %s:%d''
         [PStr (host (main_tor a)), PInt (port (main_tor a))],
       HookOnConnect, ClearAuthorizations, Log Info ''Subscribing for mining jobs'' [],
       Rpc ''mining.subscribe'' []] \<and>
    take 7 (emitted a [Connect (Some (x # extranonce1 # extranonce2_size # rest))] s) =
      [Log Info ''Connected to Stratum pool at %s:%d''
         [PStr (host (main_tor a)), PInt (port (main_tor a))],
       HookOnConnect, ClearAuthorizations, Log Info ''Subscribing for mining jobs'' [],
       Rpc ''mining.subscribe'' [],
       JobSetExtranonce extranonce1 extranonce2_size,
       ListenerSetExtranonce extranonce1 extranonce2_size] \<and>
    job_extranonce (step a (Connect (Some (x # extranonce1 # extranonce2_size # rest))) s) =
      Some (extranonce1, extranonce2_size) \<and>
    all_unauthorized (step a (Connect r) s) \<and>
    connect_hooked (step a (Connect r) s) \<and>
    drop 5 (emitted a [Connect r] s) =
      (case reply_pair r of
         None \<Rightarrow> [Raise (if r = None then RpcError else ValueError)]
       | Some (e1, e2) \<Rightarrow>
           [JobSetExtranonce e1 e2, ListenerSetExtranonce e1 e2] @
           (if truthy (custom_user a)
            then [Log Warning ''Authorizing custom user %s, password %s''
                    [custom_user a, custom_password a],
                  WorkersAuthorize (custom_user a) (custom_password a),
                  Rpc ''mining.authorize'' [custom_user a, custom_password a]]
            else [])) \<and>
    job_extranonce (step a (Connect r) s) =
      (case reply_pair r of None \<Rightarrow> job_extranonce s | Some p \<Rightarrow> Some p) \<and>
    listener_extranonce (step a (Connect r) s) =
      (case reply_pair r of None \<Rightarrow> listener_extranonce s | Some p \<Rightarrow> Some p))"
proof -
  have hooked: "connect_hooked (run a es (main_setup a w))"
    using hooked_reachable by blast
  have first: "take 5 (emitted a [Connect r] (run a es (main_setup a w))) =
      [Log Info ''Connected to Stratum pool at %s:%d''
         [PStr (host (main_tor a)), PInt (port (main_tor a))],
       HookOnConnect, ClearAuthorizations, Log Info ''Subscribing for mining jobs'' [],
       Rpc ''mining.subscribe'' []]"
    by (simp add: emitted_Connect [OF hooked] main_host_reachable)
  have full: "take 7 (emitted a [Connect (Some (x # extranonce1 # extranonce2_size # rest))]
        (run a es (main_setup a w))) =
      [Log Info ''Connected to Stratum pool at %s:%d''
         [PStr (host (main_tor a)), PInt (port (main_tor a))],
       HookOnConnect, ClearAuthorizations, Log Info ''Subscribing for mining jobs'' [],
       Rpc ''mining.subscribe'' [],
       JobSetExtranonce extranonce1 extranonce2_size,
       ListenerSetExtranonce extranonce1 extranonce2_size]"
    by (simp add: emitted_Connect [OF hooked] main_host_reachable)
  have rest: "drop 5 (emitted a [Connect r] (run a es (main_setup a w))) =
      (case reply_pair r of
         None \<Rightarrow> [Raise (if r = None then RpcError else ValueError)]
       | Some (e1, e2) \<Rightarrow>
           [JobSetExtranonce e1 e2, ListenerSetExtranonce e1 e2] @
           (if truthy (custom_user a)
            then [Log Warning ''Authorizing custom user %s, password %s''
                    [custom_user a, custom_password a],
                  WorkersAuthorize (custom_user a) (custom_password a),
                  Rpc ''mining.authorize'' [custom_user a, custom_password a]]
            else []))"
    by (simp add: emitted_Connect_pair [OF hooked])
  show ?thesis
    unfolding Let_def
    using state_Connect [OF hooked, of a r]
      state_Connect_ok [OF hooked, of a x extranonce1 extranonce2_size rest]
      extranonce_Connect [OF hooked, of a r] first full rest
    by blast
qed

text \<open>
  C5 as stated (every connect event extracts the pair and installs it) fails on the
  first connect after \<open>main\<close>'s setup when the subscribe call fails, and when the pool
  answers with an array of two elements: the handler raises and no config is
  installed.
\<close>

theorem connect_handshake_counterexample:
  "emitted default_args [Connect None] (main_setup default_args 1000) =
     [Log Info ''Connected to Stratum pool at %s:%d'' [PStr ''stratum.bitcoin.cz'', PInt 3333],
      HookOnConnect, ClearAuthorizations, Log Info ''Subscribing for mining jobs'' [],
      Rpc ''mining.subscribe'' [], Raise RpcError] \<and>
   job_extranonce (step default_args (Connect None) (main_setup default_args 1000)) = None \<and>
   emitted default_args [Connect (Some [PList [], PStr ''08000002''])]
       (main_setup default_args 1000) =
     [Log Info ''Connected to Stratum pool at %s:%d'' [PStr ''stratum.bitcoin.cz'', PInt 3333],
      HookOnConnect, ClearAuthorizations, Log Info ''Subscribing for mining jobs'' [],
      Rpc ''mining.subscribe'' [], Raise ValueError] \<and>
   job_extranonce (step default_args (Connect (Some [PList [], PStr ''08000002'']))
       (main_setup default_args 1000)) = None"
  by (simp add: eval_defs)




text \<open>
  C10. The \<open>JobRegistry\<close> and the listener service hold the same extranonce
  parameters in every reachable state, and after a handshake with a reply of three
  or more elements both hold the pair taken from that reply. The two installs are
  adjacent: the first install is followed at once by the second, and only the
  authorization of the custom user comes after them.
\<close>

theorem extranonce_in_step:
  "(let s = run a es (main_setup a w);
        s' = step a (Connect (Some (x # extranonce1 # extranonce2_size # rest))) s in
    job_extranonce s = listener_extranonce s \<and>
    job_extranonce s' = Some (extranonce1, extranonce2_size) \<and>
    listener_extranonce s' = Some (extranonce1, extranonce2_size) \<and>
    (\<exists>pre post.
       emitted a [Connect (Some (x # extranonce1 # extranonce2_size # rest))] s =
         pre @ [JobSetExtranonce extranonce1 extranonce2_size,
                ListenerSetExtranonce extranonce1 extranonce2_size] @ post \<and>
       JobSetExtranonce extranonce1 extranonce2_size \<notin> set pre \<and>
       list_all (\<lambda>e. e = Log Warning ''Authorizing custom user %s, password %s''
                        [custom_user a, custom_password a] \<or> is_authorize_call e) post))"
proof -
  let ?s = "run a es (main_setup a w)"
  have hooked: "connect_hooked ?s"
    using hooked_reachable by blast
  have inv: "job_extranonce ?s = listener_extranonce ?s"
    by (rule extranonce_run) (simp add: main_setup_def Let_def)
  have "\<exists>pre post.
       emitted a [Connect (Some (x # extranonce1 # extranonce2_size # rest))] ?s =
         pre @ [JobSetExtranonce extranonce1 extranonce2_size,
                ListenerSetExtranonce extranonce1 extranonce2_size] @ post \<and>
       JobSetExtranonce extranonce1 extranonce2_size \<notin> set pre \<and>
       list_all (\<lambda>e. e = Log Warning ''Authorizing custom user %s, password %s''
                        [custom_user a, custom_password a] \<or> is_authorize_call e) post"
    apply (rule exI [of _ "[Log Info ''Connected to Stratum pool at %s:%d''
        [PStr (fst (main_host ?s)), PInt (snd (main_host ?s))],
      HookOnConnect, ClearAuthorizations, Log Info ''Subscribing for mining jobs'' [],
      Rpc ''mining.subscribe'' []]"])
    apply (rule exI [of _ "if truthy (custom_user a)
                then [Log Warning ''Authorizing custom user %s, password %s''
                        [custom_user a, custom_password a],
                      WorkersAuthorize (custom_user a) (custom_password a),
                      Rpc ''mining.authorize'' [custom_user a, custom_password a]]
                else []"])
    apply (simp add: emitted_Connect_ok [OF hooked])
    done
  then show ?thesis
    using state_Connect_ok [OF hooked, of a x extranonce1 extranonce2_size rest] inv
    by (simp add: Let_def)
qed

section \<open>The \<open>--socks\<close> argument\<close>

text \<open>
  C9 (amended). Without \<open>--tor\<close>, for every non-empty \<open>--socks\<close> string that contains
  no colon, \<open>main\<close> binds \<open>proxy\<close> to a pair whose first component is the one-element
  list that \<open>split(':')\<close> returned, next to the port 9050: not a pair of a host string
  and a port. Without \<open>--tor\<close>, a pair of a host string and a port is produced only
  when the string contains a colon. This holds whatever \<open>int\<close> does.
\<close>

theorem socks_without_port:
  "(\<not> tor a \<and> proxy a \<noteq> [] \<and> CHR '':'' \<notin> set (proxy a) \<longrightarrow>
      main_proxy py_int a = Inr (PTuple [PList [PStr (proxy a)], PInt 9050]) \<and>
      \<not> well_formed_proxy (PTuple [PList [PStr (proxy a)], PInt 9050])) \<and>
   (\<not> tor a \<and> main_proxy py_int a = Inr v \<and> well_formed_proxy v \<longrightarrow>
      CHR '':'' \<in> set (proxy a))"
proof (intro conjI impI)
  assume h: "\<not> tor a \<and> proxy a \<noteq> [] \<and> CHR '':'' \<notin> set (proxy a)"
  then show "main_proxy py_int a = Inr (PTuple [PList [PStr (proxy a)], PInt 9050])"
    by (simp add: main_proxy_def main_tor_def Let_def split_on_no_sep)
  show "\<not> well_formed_proxy (PTuple [PList [PStr (proxy a)], PInt 9050])"
    by simp
next
  assume h: "\<not> tor a \<and> main_proxy py_int a = Inr v \<and> well_formed_proxy v"
  show "CHR '':'' \<in> set (proxy a)"
  proof (rule ccontr)
    assume no: "CHR '':'' \<notin> set (proxy a)"
    with h have "v = PNone \<or> v = PTuple [PList [PStr (proxy a)], PInt 9050]"
      by (auto simp: main_proxy_def main_tor_def Let_def split_on_no_sep split: if_splits)
    with h show False by auto
  qed
qed

text \<open>C9 on two command lines: \<open>--socks localhost\<close> and \<open>--socks localhost:1080\<close>.\<close>

theorem socks_without_port_witness:
  "main_proxy decimal_int (default_args\<lparr>proxy := ''localhost''\<rparr>) =
     Inr (PTuple [PList [PStr ''localhost''], PInt 9050]) \<and>
   \<not> well_formed_proxy (PTuple [PList [PStr ''localhost''], PInt 9050]) \<and>
   main_proxy decimal_int (default_args\<lparr>proxy := ''localhost:1080''\<rparr>) =
     Inr (PTuple [PStr ''localhost'', PInt 1080]) \<and>
   well_formed_proxy (PTuple [PStr ''localhost'', PInt 1080]) \<and>
   CHR '':'' \<in> set (proxy (default_args\<lparr>proxy := ''localhost:1080''\<rparr>))"
proof -
  have ev: "main_proxy decimal_int (default_args\<lparr>proxy := ''localhost:1080''\<rparr>) =
     Inr (PTuple [PStr ''localhost'', PInt 1080])"
    by (simp add: main_proxy_def main_tor_def Let_def default_args_def decimal_int_def
        digit_val_def)
  have wf: "well_formed_proxy (PTuple [PStr ''localhost'', PInt 1080])"
    by simp
  have pre: "\<not> tor (default_args\<lparr>proxy := ''localhost''\<rparr>) \<and>
      proxy (default_args\<lparr>proxy := ''localhost''\<rparr>) \<noteq> [] \<and>
      CHR '':'' \<notin> set (proxy (default_args\<lparr>proxy := ''localhost''\<rparr>))"
    by (simp add: default_args_def)
  have nt: "\<not> tor (default_args\<lparr>proxy := ''localhost:1080''\<rparr>)"
    by (simp add: default_args_def)
  from socks_without_port [of "default_args\<lparr>proxy := ''localhost''\<rparr>" decimal_int PNone] pre
  have first: "main_proxy decimal_int (default_args\<lparr>proxy := ''localhost''\<rparr>) =
      Inr (PTuple [PList [PStr (proxy (default_args\<lparr>proxy := ''localhost''\<rparr>))], PInt 9050]) \<and>
      \<not> well_formed_proxy (PTuple [PList [PStr (proxy (default_args\<lparr>proxy := ''localhost''\<rparr>))], PInt 9050])"
    by blast
  from socks_without_port [of "default_args\<lparr>proxy := ''localhost:1080''\<rparr>" decimal_int
      "PTuple [PStr ''localhost'', PInt 1080]"] nt ev wf
  have second: "CHR '':'' \<in> set (proxy (default_args\<lparr>proxy := ''localhost:1080''\<rparr>))"
    by blast
  from first second ev wf show ?thesis
    by simp
qed

text \<open>
  C9 as stated (every \<open>--socks\<close> string without a colon gives the malformed pair, and
  a well-formed pair needs a colon in it) fails twice: the empty string, which is
  also the default, takes the \<open>else\<close> branch and gives \<open>None\<close>; and with \<open>--tor\<close> the
  string is overwritten before it is split, so \<open>--tor --socks localhost\<close> gives the
  well-formed pair of Tor's local port.
\<close>

theorem socks_without_port_counterexample:
  "CHR '':'' \<notin> set (proxy default_args) \<and>
   main_proxy decimal_int default_args = Inr PNone \<and>
   CHR '':'' \<notin> set (proxy (default_args\<lparr>tor := True, proxy := ''localhost''\<rparr>)) \<and>
   main_proxy decimal_int (default_args\<lparr>tor := True, proxy := ''localhost''\<rparr>) =
     Inr (PTuple [PStr ''127.0.0.1'', PInt 9050])"
  by (simp add: main_proxy_def main_tor_def Let_def default_args_def decimal_int_def
      digit_val_def)

section \<open>The worker side: ranges and shares\<close>

text \<open>
  C2. After every sequence of events (worker subscribes, deregistrations and
  everything else that can happen to the proxy), no connection has two Worker
  entries and the extranonce2 ranges of any two workers have no value in common. So
  a range handed out now overlaps no range that a worker holds, and a freed range
  is handed out again only once its worker is gone.
\<close>

theorem ranges_pairwise_disjoint:
  "distinct (map connection_id (workers (run a es (main_setup a w)))) \<and>
   (\<forall>v1\<in>set (workers (run a es (main_setup a w))).
    \<forall>v2\<in>set (workers (run a es (main_setup a w))).
      connection_id v1 \<noteq> connection_id v2 \<longrightarrow>
      range_set (extranonce2_range v1) \<inter> range_set (extranonce2_range v2) = {})"
proof -
  let ?s = "run a es (main_setup a w)"
  have inv: "alloc_inv ?s"
    by (rule alloc_inv_reachable)
  then have ap: "sorted_wrt ranges_disjoint (map extranonce2_range (workers ?s))"
    by (simp add: alloc_inv_def sorted_wrt_append)
  from inv have "distinct (map connection_id (workers ?s))"
    by (simp add: alloc_inv_def)
  moreover have "range_set (extranonce2_range v1) \<inter> range_set (extranonce2_range v2) = {}"
    if "v1 \<in> set (workers ?s)" and "v2 \<in> set (workers ?s)"
      and "connection_id v1 \<noteq> connection_id v2" for v1 v2
    using apart_members [OF ap that] by (rule ranges_disjoint_sets)
  ultimately show ?thesis
    by blast
qed

text \<open>
  C2 on a run in which worker 1 leaves and worker 3 is given the range that worker 1
  held.
\<close>

theorem ranges_pairwise_disjoint_witness:
  "map extranonce2_range (workers (run default_args
      [Connect (Some subscribe_reply), WorkerSubscribe 1, WorkerSubscribe 2, WorkerDeregister 1,
       WorkerSubscribe 3] (main_setup default_args 1000))) = [(1000, 2000), (0, 1000)] \<and>
   range_set (1000, 2000) \<inter> range_set (0, 1000) = {}"
proof -
  let ?es = "[Connect (Some subscribe_reply), WorkerSubscribe 1, WorkerSubscribe 2,
    WorkerDeregister 1, WorkerSubscribe 3]"
  let ?v1 = "\<lparr>connection_id = 2, presented_username = [], presented_password = [],
       authorized = False, extranonce2_range = (1000, 2000)\<rparr>"
  let ?v2 = "\<lparr>connection_id = 3, presented_username = [], presented_password = [],
       authorized = False, extranonce2_range = (0, 1000)\<rparr>"
  have v1: "?v1 \<in> set (workers (run default_args ?es (main_setup default_args 1000)))"
    and v2: "?v2 \<in> set (workers (run default_args ?es (main_setup default_args 1000)))"
    unfolding example_workers by simp_all
  have ne: "connection_id ?v1 \<noteq> connection_id ?v2"
    by simp
  from ranges_pairwise_disjoint [of default_args ?es 1000] v1 v2 ne
  have "range_set (extranonce2_range ?v1) \<inter> range_set (extranonce2_range ?v2) = {}"
    by blast
  then show ?thesis
    unfolding example_workers by simp
qed

text \<open>
  C3. A share whose job id is not the current job's, or whose worker is not
  authorized, is rejected locally with a reason: \<open>submit\<close> returns the rejection and
  the state it was given, and the only effect of the event is the reply to the
  worker, so no call goes upstream.
\<close>

theorem stale_or_unauthorized_rejected:
  "current_job_id s \<noteq> Some (share_job_id sub) \<or> \<not> is_authorized wid s \<Longrightarrow>
   submit a wid sub verdict s =
     (Rejected (if is_authorized wid s then ''stale job'' else ''unauthorized''), s) \<and>
   emitted a [Submit wid sub verdict] s =
     [SubmitReply wid (Rejected (if is_authorized wid s then ''stale job'' else ''unauthorized''))]"
  by (auto simp: submit_def is_authorized_def emitted_def emit_def split: option.splits)

text \<open>C3 on a stale share of an authorized worker.\<close>

theorem stale_or_unauthorized_rejected_witness:
  "current_job_id (run default_args
      [Connect (Some subscribe_reply), WorkerSubscribe 1, WorkerAuthorize 1 ''a'' ''b'' True,
       JobNotify job1] (main_setup default_args 1000)) \<noteq> Some ''J0'' \<and>
   is_authorized 1 (run default_args
      [Connect (Some subscribe_reply), WorkerSubscribe 1, WorkerAuthorize 1 ''a'' ''b'' True,
       JobNotify job1] (main_setup default_args 1000)) \<and>
   emitted default_args [Submit 1 (share1\<lparr>share_job_id := ''J0''\<rparr>) Accepted]
     (run default_args
      [Connect (Some subscribe_reply), WorkerSubscribe 1, WorkerAuthorize 1 ''a'' ''b'' True,
       JobNotify job1] (main_setup default_args 1000)) =
     [SubmitReply 1 (Rejected ''stale job'')]"
proof -
  let ?s = "run default_args
      [Connect (Some subscribe_reply), WorkerSubscribe 1, WorkerAuthorize 1 ''a'' ''b'' True,
       JobNotify job1] (main_setup default_args 1000)"
  have stale: "current_job_id ?s \<noteq> Some (share_job_id (share1\<lparr>share_job_id := ''J0''\<rparr>))"
    by (simp add: eval_defs)
  have auth: "is_authorized 1 ?s"
    by (simp add: eval_defs)
  from stale have "current_job_id ?s \<noteq> Some (share_job_id (share1\<lparr>share_job_id := ''J0''\<rparr>)) \<or>
      \<not> is_authorized 1 ?s"
    by blast
  from stale_or_unauthorized_rejected [OF this, of default_args Accepted] auth stale
  show ?thesis
    by simp
qed

section \<open>Between a disconnect and the next handshake\<close>




end
